theory Spec2Isabelle
  imports Main
begin

section \<open>NextUp: the timer model of \<^verbatim>\<open>src/App.jsx\<close>\<close>

text \<open>
  The component keeps a list of timers, the id of the selected timer, two options, the
  keypad digit buffer and the counter for fresh timer numbers. Every handler of the source
  is a function from state to state here; each clock read of the source (\<^verbatim>\<open>Date.now()\<close>,
  \<^verbatim>\<open>new Date()\<close>) is an explicit argument. Timestamps and durations are whole
  milliseconds, modelled as \<^typ>\<open>int\<close> (JavaScript numbers are exact on integers far
  beyond the range of epoch milliseconds).
\<close>

subsection \<open>Data\<close>

datatype TimerMode = CountUp | CountDown | CountTo

record timer =
  timerId :: string
  label :: string
  mode :: TimerMode
  running :: bool
  startEpochMs :: "int option"
  baseMs :: int
  countdownInitialMs :: int
  countToTargetEpochMs :: "int option"

record hms =
  h :: int
  m :: int
  s :: int

datatype ClearBehavior = resetAll | keepTarget

record app =
  timers :: "timer list"
  selectedTimerId :: string
  clearBehavior :: ClearBehavior
  allowNegativeTime :: bool
  keypadDigits :: string
  nextTimerNumber :: nat

subsection \<open>Strings and numbers of the platform\<close>

text \<open>\<^verbatim>\<open>\D\<close> of the regular expression: everything but the ten ASCII digits.\<close>

definition isDigit :: "char \<Rightarrow> bool" where
  "isDigit c = (let n = (of_char c :: nat) in 48 \<le> n \<and> n \<le> 57)"

definition digitValue :: "char \<Rightarrow> int" where
  "digitValue c = int (of_char c) - 48"

text \<open>\<^verbatim>\<open>Number(str)\<close> on a string of decimal digits (leading zeros allowed).\<close>

definition Number :: "string \<Rightarrow> int" where
  "Number str = foldl (\<lambda>acc c. acc * 10 + digitValue c) 0 str"

text \<open>\<^verbatim>\<open>str.slice(-n)\<close>: the last \<open>n\<close> characters, the whole string when it is shorter.\<close>

definition sliceLast :: "nat \<Rightarrow> string \<Rightarrow> string" where
  "sliceLast n str = drop (length str - n) str"

definition padStart :: "nat \<Rightarrow> char \<Rightarrow> string \<Rightarrow> string" where
  "padStart n c str = replicate (n - length str) c @ str"

text \<open>\<^verbatim>\<open>str.slice(i, j)\<close> for \<open>0 \<le> i \<le> j\<close>.\<close>

definition slice :: "nat \<Rightarrow> nat \<Rightarrow> string \<Rightarrow> string" where
  "slice i j str = take (j - i) (drop i str)"

definition digitChar :: "nat \<Rightarrow> char" where
  "digitChar k = ''0123456789'' ! k"

text \<open>\<^verbatim>\<open>String(n)\<close> for a non-negative integer: its decimal digits.\<close>

fun String :: "nat \<Rightarrow> string" where
  "String n = (if n < 10 then [digitChar n] else String (n div 10) @ [digitChar (n mod 10)])"

declare String.simps [simp del]

subsection \<open>Local time of the platform\<close>

text \<open>
  \<^verbatim>\<open>Date\<close> works in local time. The time zone of the platform is a parameter: the
  offset of local time from UTC in force at a UTC instant (ECMAScript's
  \<^verbatim>\<open>LocalTZA(t, true)\<close>) and the offset the platform chooses for a local time value
  (\<^verbatim>\<open>LocalTZA(t, false)\<close>), both in ms. The two differ around a change of offset such
  as daylight saving. The conversions and the day arithmetic are ECMAScript's
  \<^verbatim>\<open>LocalTime\<close>, \<^verbatim>\<open>UTC\<close>, \<^verbatim>\<open>Day\<close>, \<^verbatim>\<open>TimeWithinDay\<close>, \<^verbatim>\<open>MakeTime\<close> and
  \<^verbatim>\<open>MakeDate\<close>. Time values stay far inside the range of valid dates, so
  \<^verbatim>\<open>TimeClip\<close> is the identity.
\<close>

record zone =
  offsetAtUTC :: "int \<Rightarrow> int"
  offsetAtLocal :: "int \<Rightarrow> int"

definition msPerDay :: int where
  "msPerDay = 86400000"

definition LocalTime :: "zone \<Rightarrow> int \<Rightarrow> int" where
  "LocalTime tz t = t + offsetAtUTC tz t"

definition UTC :: "zone \<Rightarrow> int \<Rightarrow> int" where
  "UTC tz l = l - offsetAtLocal tz l"

definition Day :: "int \<Rightarrow> int" where
  "Day t = t div msPerDay"

definition TimeWithinDay :: "int \<Rightarrow> int" where
  "TimeWithinDay t = t mod msPerDay"

definition MakeTime :: "int \<Rightarrow> int \<Rightarrow> int \<Rightarrow> int \<Rightarrow> int" where
  "MakeTime hh mm ss ms = hh * 3600000 + mm * 60000 + ss * 1000 + ms"

definition MakeDate :: "int \<Rightarrow> int \<Rightarrow> int" where
  "MakeDate day time = day * msPerDay + time"

text \<open>
  \<^verbatim>\<open>setHours(h, m, s, ms)\<close> keeps the local day of the date and replaces the time
  within the day (hours beyond 23 run on into the following days), then converts back.
\<close>

definition Date_setHours :: "zone \<Rightarrow> int \<Rightarrow> int \<Rightarrow> int \<Rightarrow> int \<Rightarrow> int \<Rightarrow> int" where
  "Date_setHours tz t hh mm ss ms =
     UTC tz (MakeDate (Day (LocalTime tz t)) (MakeTime hh mm ss ms))"

text \<open>
  \<^verbatim>\<open>d.setDate(d.getDate() + 1)\<close>: the day of the month plus one names the next local
  calendar day (\<^verbatim>\<open>MakeDay\<close> carries into the next month), the local time within the
  day is kept, and the result is converted back with the offset of the new local time.
\<close>

definition Date_setDate_next :: "zone \<Rightarrow> int \<Rightarrow> int" where
  "Date_setDate_next tz t =
     (let lt = LocalTime tz t
      in UTC tz (MakeDate (Day lt + 1) (TimeWithinDay lt)))"

subsection \<open>Helpers of the source\<close>

definition clamp :: "int \<Rightarrow> int \<Rightarrow> int \<Rightarrow> int" where
  "clamp n mn mx = min mx (max mn n)"

definition parseKeypadDigitsToHms :: "string \<Rightarrow> hms" where
  "parseKeypadDigitsToHms digits =
     (let d = sliceLast 6 (filter isDigit digits);
          padded = padStart 6 (CHR ''0'') d;
          hh = Number (slice 0 2 padded);
          mm = Number (slice 2 4 padded);
          ss = Number (slice 4 6 padded)
      in \<lparr> h = clamp hh 0 99, m = clamp mm 0 59, s = clamp ss 0 59 \<rparr>)"

definition hmsToMs :: "hms \<Rightarrow> int" where
  "hmsToMs x = ((h x * 60 + m x) * 60 + s x) * 1000"

text \<open>\<open>clock\<close> is the value of \<^verbatim>\<open>new Date()\<close> read inside the function.\<close>

definition getTodayTargetEpochMs :: "zone \<Rightarrow> int \<Rightarrow> hms \<Rightarrow> int" where
  "getTodayTargetEpochMs tz clock x =
     (let target = Date_setHours tz clock (h x) (m x) (s x) 0
      in if target \<le> clock then Date_setDate_next tz target else target)"

definition makeTimer :: "string \<Rightarrow> string \<Rightarrow> timer" where
  "makeTimer i l =
     \<lparr> timerId = i, label = l, mode = CountUp, running = False, startEpochMs = None,
       baseMs = 0, countdownInitialMs = 0, countToTargetEpochMs = None \<rparr>"

definition computeDisplayMs :: "timer \<Rightarrow> int \<Rightarrow> bool \<Rightarrow> int" where
  "computeDisplayMs t nowEpochMs allowNeg =
     (let elapsedRaw = (if running t then (case startEpochMs t of Some st \<Rightarrow> nowEpochMs - st | None \<Rightarrow> 0)
                        else 0);
          elapsed = max 0 elapsedRaw;
          currentBaseMs = baseMs t + elapsed
      in case mode t of
           CountUp \<Rightarrow> currentBaseMs
         | CountDown \<Rightarrow>
             (let remaining = countdownInitialMs t - currentBaseMs
              in if allowNeg then remaining else max 0 remaining)
         | CountTo \<Rightarrow>
             (case countToTargetEpochMs t of
                None \<Rightarrow> 0
              | Some target \<Rightarrow>
                  (let remaining = (if running t then target - nowEpochMs else baseMs t)
                   in if allowNeg then remaining else max 0 remaining)))"

subsection \<open>The auto-stop watchdog\<close>

text \<open>The callback of \<^verbatim>\<open>prev.map\<close> in the effect; \<open>now\<close> is its \<^verbatim>\<open>Date.now()\<close>.\<close>

definition watchdog_updater :: "int \<Rightarrow> timer \<Rightarrow> timer" where
  "watchdog_updater now t =
     (if \<not> running t then t
      else case mode t of
        CountDown \<Rightarrow>
          (let ms = computeDisplayMs t now False
           in if ms > 0 then t
              else t\<lparr> running := False, startEpochMs := None, baseMs := countdownInitialMs t \<rparr>)
      | CountTo \<Rightarrow>
          (case countToTargetEpochMs t of
             None \<Rightarrow> t
           | Some target \<Rightarrow>
               (let remaining = target - now
                in if remaining > 0 then t
                   else t\<lparr> running := False, startEpochMs := None, baseMs := 0 \<rparr>))
      | CountUp \<Rightarrow> t)"

definition watchdog :: "int \<Rightarrow> app \<Rightarrow> app" where
  "watchdog now st =
     (if allowNegativeTime st then st
      else st\<lparr> timers := map (watchdog_updater now) (timers st) \<rparr>)"

subsection \<open>The handlers\<close>

definition updateTimer :: "string \<Rightarrow> (timer \<Rightarrow> timer) \<Rightarrow> app \<Rightarrow> app" where
  "updateTimer i updater st =
     st\<lparr> timers := map (\<lambda>t. if timerId t = i then updater t else t) (timers st) \<rparr>"

definition addTimer :: "app \<Rightarrow> app" where
  "addTimer st =
     (let n = nextTimerNumber st;
          i = ''T'' @ String n
      in st\<lparr> nextTimerNumber := n + 1,
              timers := timers st @ [makeTimer i (''Timer '' @ String n)],
              selectedTimerId := i \<rparr>)"

text \<open>
  \<^verbatim>\<open>next[0]?.id\<close> is undefined on an empty list, and \<^verbatim>\<open>if (nextSelected)\<close> is also false
  on the empty string.
\<close>

definition deleteTimer :: "string \<Rightarrow> app \<Rightarrow> app" where
  "deleteTimer i st =
     (let prev = timers st in
      if length prev \<le> 1 then st
      else let next = filter (\<lambda>t. timerId t \<noteq> i) prev in
        if length next = length prev then st
        else if selectedTimerId st = i then
          (case next of
             [] \<Rightarrow> st\<lparr> timers := next \<rparr>
           | t # _ \<Rightarrow>
               if timerId t \<noteq> [] then st\<lparr> timers := next, selectedTimerId := timerId t \<rparr>
               else st\<lparr> timers := next \<rparr>)
        else st\<lparr> timers := next \<rparr>)"

definition pauseTimer_updater :: "int \<Rightarrow> timer \<Rightarrow> timer" where
  "pauseTimer_updater now t =
     (if \<not> running t then t
      else let elapsed = (case startEpochMs t of Some st \<Rightarrow> now - st | None \<Rightarrow> 0)
           in t\<lparr> running := False, startEpochMs := None, baseMs := baseMs t + elapsed \<rparr>)"

definition pauseTimer :: "string \<Rightarrow> int \<Rightarrow> app \<Rightarrow> app" where
  "pauseTimer i now st = updateTimer i (pauseTimer_updater now) st"

definition clearTimer_updater :: "ClearBehavior \<Rightarrow> timer \<Rightarrow> timer" where
  "clearTimer_updater cb t =
     (if cb = keepTarget then t\<lparr> running := False, startEpochMs := None, baseMs := 0 \<rparr>
      else t\<lparr> running := False, startEpochMs := None, baseMs := 0,
              countdownInitialMs := 0, countToTargetEpochMs := None \<rparr>)"

definition clearTimer :: "string \<Rightarrow> app \<Rightarrow> app" where
  "clearTimer i st =
     (updateTimer i (clearTimer_updater (clearBehavior st)) st)\<lparr> keypadDigits := [] \<rparr>"

text \<open>
  The body of the \<^verbatim>\<open>prev.map\<close> callback of \<^verbatim>\<open>startSelectedTimer\<close> for the selected timer
  when it is not running: first the typed target, if any, is applied per mode, then a
  CountTo timer with a target has \<open>baseMs\<close> re-snapshot, then the timer is started.
  \<open>now\<close> is the callback's \<^verbatim>\<open>Date.now()\<close>, \<open>clock\<close> the \<^verbatim>\<open>new Date()\<close> of
  \<open>getTodayTargetEpochMs\<close>.
\<close>

definition applyTyped :: "zone \<Rightarrow> int \<Rightarrow> int \<Rightarrow> bool \<Rightarrow> hms \<Rightarrow> timer \<Rightarrow> timer" where
  "applyTyped tz now clock allowNeg x t =
     (let ms = hmsToMs x in
      case mode t of
        CountUp \<Rightarrow> t\<lparr> running := False, startEpochMs := None, baseMs := ms \<rparr>
      | CountDown \<Rightarrow>
          t\<lparr> running := False, startEpochMs := None, baseMs := 0, countdownInitialMs := ms \<rparr>
      | CountTo \<Rightarrow>
          (let targetEpochMs = getTodayTargetEpochMs tz clock x;
               remaining = targetEpochMs - now
           in t\<lparr> running := False, startEpochMs := None,
                  baseMs := (if allowNeg then remaining else max 0 remaining),
                  countToTargetEpochMs := Some targetEpochMs \<rparr>))"

definition resnapshot :: "int \<Rightarrow> bool \<Rightarrow> timer \<Rightarrow> timer" where
  "resnapshot now allowNeg t =
     (case countToTargetEpochMs t of
        Some target \<Rightarrow>
          if mode t = CountTo then
            (let remaining = target - now
             in t\<lparr> baseMs := (if allowNeg then remaining else max 0 remaining) \<rparr>)
          else t
      | None \<Rightarrow> t)"

definition startSelectedTimer_updater ::
  "zone \<Rightarrow> int \<Rightarrow> int \<Rightarrow> bool \<Rightarrow> hms option \<Rightarrow> timer \<Rightarrow> timer" where
  "startSelectedTimer_updater tz now clock allowNeg typed t =
     (if running t then t
      else let next1 = (case typed of Some x \<Rightarrow> applyTyped tz now clock allowNeg x t | None \<Rightarrow> t);
               next2 = resnapshot now allowNeg next1
           in next2\<lparr> running := True, startEpochMs := Some now \<rparr>)"

definition startSelectedTimer :: "zone \<Rightarrow> int \<Rightarrow> int \<Rightarrow> app \<Rightarrow> app" where
  "startSelectedTimer tz now clock st =
     (let digits = keypadDigits st;
          typed = (if length digits > 0 then Some (parseKeypadDigitsToHms digits) else None);
          st' = st\<lparr> timers :=
                  map (\<lambda>t. if timerId t \<noteq> selectedTimerId st then t
                           else startSelectedTimer_updater tz now clock (allowNegativeTime st) typed t)
                      (timers st) \<rparr>
      in if length digits > 0 then st'\<lparr> keypadDigits := [] \<rparr> else st')"

definition setMode_updater :: "TimerMode \<Rightarrow> int \<Rightarrow> timer \<Rightarrow> timer" where
  "setMode_updater md now t =
     (let wasRunning = running t;
          elapsed = (if wasRunning then (case startEpochMs t of Some st \<Rightarrow> now - st | None \<Rightarrow> 0)
                     else 0);
          nextBaseMs = (if wasRunning then baseMs t + elapsed else baseMs t)
      in t\<lparr> mode := md, running := False, startEpochMs := None,
             baseMs := (if md = CountUp then nextBaseMs else 0) \<rparr>)"

definition setModeForSelectedTimer :: "TimerMode \<Rightarrow> int \<Rightarrow> app \<Rightarrow> app" where
  "setModeForSelectedTimer md now st = updateTimer (selectedTimerId st) (setMode_updater md now) st"

subsection \<open>The component as a transition system\<close>

definition initialApp :: app where
  "initialApp =
     \<lparr> timers = [makeTimer (''T'' @ String 1) ''Timer 1'', makeTimer (''T'' @ String 2) ''Timer 2''],
       selectedTimerId = ''T1'',
       clearBehavior = resetAll,
       allowNegativeTime = False,
       keypadDigits = [],
       nextTimerNumber = 3 \<rparr>"

datatype intent =
    AddTimer
  | DeleteTimer string
  | SelectTimer string
  | PauseTimer string int
  | ClearTimer string
  | StartSelectedTimer int int
  | SetMode TimerMode int
  | Tick int
  | KeypadDigit char
  | KeypadClear
  | KeypadDelete
  | SetClearBehavior ClearBehavior
  | SetAllowNegativeTime bool

fun step :: "zone \<Rightarrow> intent \<Rightarrow> app \<Rightarrow> app" where
  "step tz AddTimer st = addTimer st"
| "step tz (DeleteTimer i) st = deleteTimer i st"
| "step tz (SelectTimer i) st = st\<lparr> selectedTimerId := i \<rparr>"
| "step tz (PauseTimer i now) st = pauseTimer i now st"
| "step tz (ClearTimer i) st = clearTimer i st"
| "step tz (StartSelectedTimer now clock) st = startSelectedTimer tz now clock st"
| "step tz (SetMode md now) st = setModeForSelectedTimer md now st"
| "step tz (Tick now) st = watchdog now st"
| "step tz (KeypadDigit c) st = st\<lparr> keypadDigits := sliceLast 6 (keypadDigits st @ [c]) \<rparr>"
| "step tz KeypadClear st = st\<lparr> keypadDigits := [] \<rparr>"
| "step tz KeypadDelete st = st\<lparr> keypadDigits := butlast (keypadDigits st) \<rparr>"
| "step tz (SetClearBehavior cb) st = st\<lparr> clearBehavior := cb \<rparr>"
| "step tz (SetAllowNegativeTime b) st = st\<lparr> allowNegativeTime := b \<rparr>"

inductive reachable :: "zone \<Rightarrow> app \<Rightarrow> bool" for tz :: zone where
  reach_init: "reachable tz initialApp"
| reach_step: "reachable tz st \<Longrightarrow> reachable tz (step tz i st)"

text \<open>A sequence of mode switches, each with its own clock reading.\<close>

fun setModes :: "(TimerMode \<times> int) list \<Rightarrow> app \<Rightarrow> app" where
  "setModes [] st = st"
| "setModes ((md, now) # rest) st = setModes rest (setModeForSelectedTimer md now st)"

subsection \<open>Local days\<close>



definition resolves :: "zone \<Rightarrow> int \<Rightarrow> bool" where
  "resolves tz l = (LocalTime tz (UTC tz l) = l)"

subsection \<open>Example values\<close>

definition exCountUp :: timer where
  "exCountUp =
     \<lparr> timerId = ''T1'', label = ''Timer 1'', mode = CountUp, running = True,
       startEpochMs = Some 1000, baseMs = 5000, countdownInitialMs = 90000,
       countToTargetEpochMs = Some 777 \<rparr>"

definition exCountDown :: timer where
  "exCountDown =
     \<lparr> timerId = ''T2'', label = ''Timer 2'', mode = CountDown, running = True,
       startEpochMs = Some 1000, baseMs = 0, countdownInitialMs = 3000,
       countToTargetEpochMs = None \<rparr>"

definition exCountTo :: timer where
  "exCountTo =
     \<lparr> timerId = ''T3'', label = ''Timer 3'', mode = CountTo, running = True,
       startEpochMs = Some 1000, baseMs = 250, countdownInitialMs = 0,
       countToTargetEpochMs = Some 5000 \<rparr>"

definition exApp :: app where
  "exApp = initialApp\<lparr> timers := [exCountUp, exCountDown, exCountTo], keypadDigits := ''915'' \<rparr>"


text \<open>
  A zone with a constant offset, UTC, and US Eastern time around the change to daylight
  saving time on 2026-03-08 (02:00 EST becomes 03:00 EDT at 07:00 UTC).
\<close>

definition fixedZone :: "int \<Rightarrow> zone" where
  "fixedZone off = \<lparr> offsetAtUTC = (\<lambda>t. off), offsetAtLocal = (\<lambda>l. off) \<rparr>"

definition utcZone :: zone where
  "utcZone = fixedZone 0"



definition exStarted :: app where
  "exStarted = step utcZone (StartSelectedTimer 1000 1000) initialApp"

definition exOneLeft :: app where
  "exOneLeft = step utcZone (DeleteTimer ''T2'') initialApp"

subsection \<open>Well-formed states\<close>

text \<open>
  Ids are made from the counter (\<^verbatim>\<open>`T${n}`\<close>), so in every state the component
  reaches they are pairwise different and below the counter.
\<close>

definition idsFresh :: "app \<Rightarrow> bool" where
  "idsFresh st = (\<forall>t \<in> set (timers st). \<exists>k < nextTimerNumber st. timerId t = ''T'' @ String k)"

definition wellFormed :: "app \<Rightarrow> bool" where
  "wellFormed st = (timers st \<noteq> [] \<and> distinct (map timerId (timers st)) \<and> idsFresh st)"

section \<open>Decimal rendering of numbers\<close>

lemma String_small: "n < 10 \<Longrightarrow> String n = [digitChar n]"
  by (simp add: String.simps)

lemma String_large: "\<not> n < 10 \<Longrightarrow> String n = String (n div 10) @ [digitChar (n mod 10)]"
  by (subst String.simps) simp

lemma String_nonempty: "String n \<noteq> []"
  by (subst String.simps) simp

lemma digitChar_inj: "a < 10 \<Longrightarrow> b < 10 \<Longrightarrow> digitChar a = digitChar b \<Longrightarrow> a = b"
proof -
  assume a: "a < 10" and b: "b < 10" and e: "digitChar a = digitChar b"
  have A: "a \<in> {0,1,2,3,4,5,6,7,8,9}" using a by auto
  have B: "b \<in> {0,1,2,3,4,5,6,7,8,9}" using b by auto
  show "a = b" using A B e by (auto simp add: digitChar_def)
qed

lemma String_inj: "String a = String b \<Longrightarrow> a = b"
proof (induction a arbitrary: b rule: String.induct)
  case (1 n)
  show ?case
  proof (cases "n < 10")
    case True
    show ?thesis
    proof (cases "b < 10")
      case True
      with \<open>n < 10\<close> 1(2) show ?thesis by (simp add: String_small digitChar_inj)
    next
      case False
      with \<open>n < 10\<close> 1(2) show ?thesis
        using String_nonempty [of "b div 10"] by (simp add: String_small String_large)
    qed
  next
    case False
    show ?thesis
    proof (cases "b < 10")
      case True
      with False 1(2) show ?thesis
        using String_nonempty [of "n div 10"] by (simp add: String_small String_large)
    next
      case bl: False
      from 1(2) False bl
      have e: "String (n div 10) = String (b div 10)" and d: "digitChar (n mod 10) = digitChar (b mod 10)"
        by (simp_all add: String_large)
      have "n div 10 = b div 10" using 1(1) [OF False e] .
      moreover have "n mod 10 = b mod 10" using d by (intro digitChar_inj) simp_all
      ultimately show ?thesis by (metis div_mult_mod_eq)
    qed
  qed
qed

section \<open>Time projection\<close>

text \<open>
  Claim C6. In CountTo mode the projection is 0 when no target is set; with a target it is
  \<open>target - now\<close> while running and \<open>baseMs\<close> while paused, each clamped at 0 unless
  negative time is allowed. While running, the value does not depend on \<open>baseMs\<close>.
\<close>

theorem computeDisplayMs_CountTo:
  assumes "mode t = CountTo"
  shows "computeDisplayMs t now allowNeg =
           (case countToTargetEpochMs t of
              None \<Rightarrow> 0
            | Some target \<Rightarrow>
                (if running t then (if allowNeg then target - now else max 0 (target - now))
                 else (if allowNeg then baseMs t else max 0 (baseMs t))))
         \<and> (running t \<longrightarrow>
              computeDisplayMs (t\<lparr> baseMs := b \<rparr>) now allowNeg = computeDisplayMs t now allowNeg)"
  using assms by (simp add: computeDisplayMs_def Let_def split: option.splits)

theorem computeDisplayMs_CountTo_witness:
  "mode exCountTo = CountTo \<and> running exCountTo
   \<and> computeDisplayMs exCountTo 7000 False = 0
   \<and> computeDisplayMs exCountTo 7000 True = - 2000
   \<and> computeDisplayMs (exCountTo\<lparr> baseMs := 99 \<rparr>) 7000 False = computeDisplayMs exCountTo 7000 False"
  using computeDisplayMs_CountTo [of exCountTo 7000 False 99]
    computeDisplayMs_CountTo [of exCountTo 7000 True 99]
  by (simp add: exCountTo_def)

section \<open>The watchdog\<close>

lemma watchdog_updater_CountDown:
  assumes "running t" "mode t = CountDown"
  shows "0 \<le> computeDisplayMs t now False"
    and "computeDisplayMs t now False = 0 \<Longrightarrow>
           watchdog_updater now t =
             t\<lparr> running := False, startEpochMs := None, baseMs := countdownInitialMs t \<rparr>"
    and "computeDisplayMs t now False \<noteq> 0 \<Longrightarrow> watchdog_updater now t = t"
  using assms
  by (auto simp add: computeDisplayMs_def watchdog_updater_def Let_def split: option.splits)

lemma watchdog_updater_frame:
  "mode t = CountUp \<or> \<not> running t \<Longrightarrow> watchdog_updater now t = t"
  by (auto simp add: watchdog_updater_def)

text \<open>
  Claim C3. With negative time off, the projection of a running CountDown timer is never
  below 0, before and after a watchdog step; the step stops the timer (not running, no
  start stamp, \<open>baseMs = countdownInitialMs\<close>) when the clamped projection at \<open>now\<close> is 0
  and leaves it as it is otherwise; a CountUp timer and a timer that is not running are
  never changed.
\<close>

theorem watchdog_CountDown:
  assumes "\<not> allowNegativeTime st" and "k < length (timers st)"
  shows "let t = timers st ! k; t' = timers (watchdog now st) ! k;
             ms = computeDisplayMs t now False in
          (running t \<and> mode t = CountDown \<longrightarrow>
             0 \<le> ms \<and> 0 \<le> computeDisplayMs t' now False \<and>
             (running t' \<longleftrightarrow> ms \<noteq> 0) \<and>
             t' = (if ms = 0
                   then t\<lparr> running := False, startEpochMs := None, baseMs := countdownInitialMs t \<rparr>
                   else t))
          \<and> (mode t = CountUp \<or> \<not> running t \<longrightarrow> t' = t)"
proof -
  let ?t = "timers st ! k"
  have nth: "timers (watchdog now st) ! k = watchdog_updater now ?t"
    using assms by (simp add: watchdog_def)
  show ?thesis
  proof (cases "running ?t \<and> mode ?t = CountDown")
    case True
    then have r: "running ?t" and md: "mode ?t = CountDown" by simp_all
    show ?thesis
    proof (cases "computeDisplayMs ?t now False = 0")
      case True
      then show ?thesis
        using watchdog_updater_CountDown(2) [OF r md True] r md nth
        by (simp add: Let_def computeDisplayMs_def)
    next
      case False
      then show ?thesis
        using watchdog_updater_CountDown(3) [OF r md False]
          watchdog_updater_CountDown(1) [OF r md, of now] r md nth
        by (simp add: Let_def)
    qed
  next
    case False
    then show ?thesis
      using watchdog_updater_frame [of ?t now] nth by (auto simp add: Let_def)
  qed
qed

theorem watchdog_CountDown_witness:
  "\<not> allowNegativeTime exApp \<and> (1::nat) < length (timers exApp) \<and> (0::nat) < length (timers exApp)
   \<and> running (timers exApp ! 1) \<and> mode (timers exApp ! 1) = CountDown
   \<and> mode (timers exApp ! 0) = CountUp
   \<and> computeDisplayMs (timers exApp ! 1) 4000 False = 0
   \<and> timers (watchdog 4000 exApp) ! 1 =
        exCountDown\<lparr> running := False, startEpochMs := None, baseMs := 3000 \<rparr>
   \<and> computeDisplayMs (timers exApp ! 1) 3999 False = 1
   \<and> timers (watchdog 3999 exApp) ! 1 = exCountDown
   \<and> timers (watchdog 4000 exApp) ! 0 = exCountUp"
  using watchdog_CountDown [of exApp 1 4000] watchdog_CountDown [of exApp 1 3999]
    watchdog_CountDown [of exApp 0 4000]
  by (simp add: exApp_def initialApp_def exCountDown_def exCountUp_def Let_def
      computeDisplayMs_def)

section \<open>Mode switches\<close>

lemma setMode_updater_fields:
  "mode (setMode_updater md now t) = md"
  "running (setMode_updater md now t) = False"
  "startEpochMs (setMode_updater md now t) = None"
  "countdownInitialMs (setMode_updater md now t) = countdownInitialMs t"
  "countToTargetEpochMs (setMode_updater md now t) = countToTargetEpochMs t"
  "timerId (setMode_updater md now t) = timerId t"
  "label (setMode_updater md now t) = label t"
  by (simp_all add: setMode_updater_def Let_def)

lemma setMode_updater_baseMs:
  "running t \<Longrightarrow> startEpochMs t = Some s0 \<Longrightarrow>
     baseMs (setMode_updater md now t) = (if md = CountUp then baseMs t + (now - s0) else 0)"
  by (simp add: setMode_updater_def Let_def)

lemma setModeForSelectedTimer_targets:
  "map countdownInitialMs (timers (setModeForSelectedTimer md now st)) =
     map countdownInitialMs (timers st)"
  "map countToTargetEpochMs (timers (setModeForSelectedTimer md now st)) =
     map countToTargetEpochMs (timers st)"
  by (simp_all add: setModeForSelectedTimer_def updateTimer_def setMode_updater_fields o_def
      cong: map_cong)

lemma setModes_targets:
  "map countdownInitialMs (timers (setModes sw st)) = map countdownInitialMs (timers st) \<and>
   map countToTargetEpochMs (timers (setModes sw st)) = map countToTargetEpochMs (timers st)"
  by (induction sw st rule: setModes.induct) (simp_all add: setModeForSelectedTimer_targets)

lemma setModeForSelectedTimer_nth:
  assumes "k < length (timers st)"
  shows "timers (setModeForSelectedTimer md now st) ! k =
           (if timerId (timers st ! k) = selectedTimerId st
            then setMode_updater md now (timers st ! k) else timers st ! k)"
  using assms by (simp add: setModeForSelectedTimer_def updateTimer_def)

lemma setModeForSelectedTimer_frame:
  "length (timers (setModeForSelectedTimer md now st)) = length (timers st)"
  "selectedTimerId (setModeForSelectedTimer md now st) = selectedTimerId st"
  "keypadDigits (setModeForSelectedTimer md now st) = keypadDigits st"
  by (simp_all add: setModeForSelectedTimer_def updateTimer_def)

lemma setMode_updater_baseMs_idle:
  "\<not> running t \<Longrightarrow> baseMs (setMode_updater md now t) = (if md = CountUp then baseMs t else 0)"
  by (simp add: setMode_updater_def Let_def)

text \<open>
  Claim C5. Switching the mode of the selected timer while it runs banks
  \<open>now - startEpochMs\<close> into \<open>baseMs\<close> and keeps the sum only when the new mode is
  CountUp (otherwise \<open>baseMs\<close> is 0); the timer is left in the new mode, not running and
  with no start stamp; \<open>countdownInitialMs\<close> and \<open>countToTargetEpochMs\<close> are not
  touched, for one switch and for every sequence of switches on the state. This holds of
  the callback and of the handler \<open>setModeForSelectedTimer\<close> on the state, which changes
  the selected timer in this way and no other timer.
\<close>

theorem setMode_semantics:
  "(running t \<and> startEpochMs t = Some s0 \<longrightarrow>
      baseMs (setMode_updater md now t) = (if md = CountUp then baseMs t + (now - s0) else 0))
   \<and> running (setMode_updater md now t) = False
   \<and> startEpochMs (setMode_updater md now t) = None
   \<and> mode (setMode_updater md now t) = md
   \<and> countdownInitialMs (setMode_updater md now t) = countdownInitialMs t
   \<and> countToTargetEpochMs (setMode_updater md now t) = countToTargetEpochMs t
   \<and> map countdownInitialMs (timers (setModes sw st)) = map countdownInitialMs (timers st)
   \<and> map countToTargetEpochMs (timers (setModes sw st)) = map countToTargetEpochMs (timers st)
   \<and> length (timers (setModeForSelectedTimer md now st)) = length (timers st)
   \<and> selectedTimerId (setModeForSelectedTimer md now st) = selectedTimerId st
   \<and> (k < length (timers st) \<longrightarrow>
        (let u = timers st ! k; u' = timers (setModeForSelectedTimer md now st) ! k in
           if timerId u = selectedTimerId st then
             running u' = False \<and> startEpochMs u' = None \<and> mode u' = md \<and>
             countdownInitialMs u' = countdownInitialMs u \<and>
             countToTargetEpochMs u' = countToTargetEpochMs u \<and>
             timerId u' = timerId u \<and> label u' = label u \<and>
             (running u \<and> startEpochMs u = Some s0 \<longrightarrow>
                baseMs u' = (if md = CountUp then baseMs u + (now - s0) else 0)) \<and>
             (\<not> running u \<longrightarrow> baseMs u' = (if md = CountUp then baseMs u else 0))
           else u' = u))"
proof -
  have handler: "k < length (timers st) \<Longrightarrow>
        (let u = timers st ! k; u' = timers (setModeForSelectedTimer md now st) ! k in
           if timerId u = selectedTimerId st then
             running u' = False \<and> startEpochMs u' = None \<and> mode u' = md \<and>
             countdownInitialMs u' = countdownInitialMs u \<and>
             countToTargetEpochMs u' = countToTargetEpochMs u \<and>
             timerId u' = timerId u \<and> label u' = label u \<and>
             (running u \<and> startEpochMs u = Some s0 \<longrightarrow>
                baseMs u' = (if md = CountUp then baseMs u + (now - s0) else 0)) \<and>
             (\<not> running u \<longrightarrow> baseMs u' = (if md = CountUp then baseMs u else 0))
           else u' = u)"
    using setMode_updater_baseMs [of "timers st ! k" s0 md now]
      setMode_updater_baseMs_idle [of "timers st ! k" md now]
    by (simp add: Let_def setModeForSelectedTimer_nth setMode_updater_fields)
  show ?thesis
    using setMode_updater_baseMs [of t s0 md now] setModes_targets [of sw st] handler
    by (simp add: setMode_updater_fields setModeForSelectedTimer_frame)
qed

theorem setMode_semantics_witness:
  "running exCountUp \<and> startEpochMs exCountUp = Some 1000
   \<and> baseMs (setMode_updater CountDown 3000 exCountUp) = 0
   \<and> baseMs (setMode_updater CountUp 3000 exCountUp) = 7000
   \<and> countdownInitialMs (setMode_updater CountDown 3000 exCountUp) = 90000
   \<and> running (setMode_updater CountDown 3000 exCountUp) = False
   \<and> map countToTargetEpochMs (timers (setModes [(CountDown, 3000), (CountUp, 4000)] exApp))
       = [Some 777, None, Some 5000]
   \<and> (0::nat) < length (timers exApp) \<and> timerId (timers exApp ! 0) = selectedTimerId exApp
   \<and> running (timers exApp ! 0) \<and> startEpochMs (timers exApp ! 0) = Some 1000
   \<and> timers (setModeForSelectedTimer CountDown 3000 exApp) ! 0 =
        exCountUp\<lparr> mode := CountDown, running := False, startEpochMs := None, baseMs := 0 \<rparr>
   \<and> timers (setModeForSelectedTimer CountUp 3000 exApp) ! 0 =
        exCountUp\<lparr> mode := CountUp, running := False, startEpochMs := None, baseMs := 7000 \<rparr>
   \<and> timers (setModeForSelectedTimer CountDown 3000 exApp) ! 1 = exCountDown"
  using setMode_semantics [of exCountUp 1000 CountDown 3000 "[(CountDown, 3000), (CountUp, 4000)]" exApp 0]
    setMode_semantics [of exCountUp 1000 CountUp 3000 "[]" exApp 0]
    setMode_semantics [of exCountUp 1000 CountDown 3000 "[]" exApp 1]
  by (simp add: exCountUp_def exCountDown_def exCountTo_def exApp_def initialApp_def Let_def)

section \<open>Clearing a timer\<close>

text \<open>
  Claim C7. Clearing resets \<open>running\<close>, \<open>startEpochMs\<close> and \<open>baseMs\<close> of the timer with
  the given id and keeps its mode, label and id; under \<open>keepTarget\<close> the countdown duration
  and the CountTo target are kept, under \<open>resetAll\<close> they become 0 and unset; every other
  timer is unchanged; the keypad buffer is emptied in both cases.
\<close>

theorem clearTimer_semantics:
  assumes "k < length (timers st)"
  shows "let t = timers st ! k; st' = clearTimer i st; t' = timers st' ! k in
           keypadDigits st' = [] \<and> length (timers st') = length (timers st) \<and>
           (if timerId t = i then
              running t' = False \<and> startEpochMs t' = None \<and> baseMs t' = 0 \<and>
              mode t' = mode t \<and> label t' = label t \<and> timerId t' = timerId t \<and>
              (case clearBehavior st of
                 keepTarget \<Rightarrow> countdownInitialMs t' = countdownInitialMs t \<and>
                               countToTargetEpochMs t' = countToTargetEpochMs t
               | resetAll \<Rightarrow> countdownInitialMs t' = 0 \<and> countToTargetEpochMs t' = None)
            else t' = t)"
  using assms
  by (simp add: clearTimer_def updateTimer_def Let_def clearTimer_updater_def
      split: ClearBehavior.splits)

theorem clearTimer_semantics_witness:
  "(0::nat) < length (timers exApp) \<and> keypadDigits exApp \<noteq> []
   \<and> keypadDigits (clearTimer ''T1'' exApp) = []
   \<and> countdownInitialMs (timers (clearTimer ''T1'' exApp) ! 0) = 0
   \<and> countdownInitialMs (timers (clearTimer ''T1'' (exApp\<lparr> clearBehavior := keepTarget \<rparr>)) ! 0)
       = 90000"
  using clearTimer_semantics [of 0 exApp "''T1''"]
    clearTimer_semantics [of 0 "exApp\<lparr> clearBehavior := keepTarget \<rparr>" "''T1''"]
  by (simp add: exCountUp_def exApp_def initialApp_def Let_def)

section \<open>Pausing\<close>

lemma pauseTimer_updater_running:
  "running t \<Longrightarrow> startEpochMs t = Some s0 \<Longrightarrow>
     pauseTimer_updater now t = t\<lparr> running := False, startEpochMs := None, baseMs := baseMs t + (now - s0) \<rparr>"
  by (simp add: pauseTimer_updater_def)

lemma pauseTimer_updater_idle: "\<not> running t \<Longrightarrow> pauseTimer_updater now t = t"
  by (simp add: pauseTimer_updater_def)

text \<open>
  Claim C1. Pausing a timer that is not running changes nothing; pausing a running timer
  clears \<open>running\<close> and \<open>startEpochMs\<close>, keeps every other field and adds
  \<open>now - startEpochMs\<close> to \<open>baseMs\<close> (lemmas \<open>pauseTimer_updater_idle\<close> and \<open>pauseTimer_updater_running\<close>). The added amount is not
  clamped at 0, unlike the elapsed time in \<open>computeDisplayMs\<close>: for a timer started at
  1000 with 5000 ms banked, a pause at clock reading 400 leaves \<open>baseMs = 4400\<close>, where
  the claim's \<open>max 0 (now - startEpochMs)\<close> gives 5000.
\<close>

theorem pauseTimer_clock_backwards:
  "running exCountUp \<and> startEpochMs exCountUp = Some 1000 \<and> baseMs exCountUp = 5000
   \<and> baseMs (pauseTimer_updater 400 exCountUp) = 4400
   \<and> baseMs exCountUp + max 0 (400 - 1000) = 5000
   \<and> timers (pauseTimer ''T1'' 400 exApp) ! 0 =
        exCountUp\<lparr> running := False, startEpochMs := None, baseMs := 4400 \<rparr>"
  by (simp add: exCountUp_def exApp_def initialApp_def pauseTimer_def updateTimer_def pauseTimer_updater_def)

lemma pause_then_start_display:
  assumes "running t" "startEpochMs t = Some s0" "s0 \<le> now"
  shows "computeDisplayMs (startSelectedTimer_updater tz now clock allowNeg None (pauseTimer_updater now t)) now allowNeg
           = computeDisplayMs t now allowNeg"
  using assms
  by (cases "mode t")
     (auto simp add: pauseTimer_updater_def startSelectedTimer_updater_def resnapshot_def
        computeDisplayMs_def Let_def split: option.splits)

text \<open>
  Claim C4. Pausing at \<open>now\<close> and starting again at the same \<open>now\<close> with an empty
  digit buffer keeps the projection at \<open>now\<close> whenever the start stamp is not after
  \<open>now\<close> (lemma \<open>pause_then_start_display\<close>). When the clock reads less than the start
  stamp, it does not: from the initial state, start the selected timer at 1000, then pause
  and start again at 400; the projection at 400 was 0 and is \<open>- 600\<close> afterwards.
\<close>

theorem pause_start_clock_backwards:
  "reachable utcZone exStarted
   \<and> running (timers exStarted ! 0) \<and> timerId (timers exStarted ! 0) = selectedTimerId exStarted
   \<and> keypadDigits (pauseTimer ''T1'' 400 exStarted) = []
   \<and> computeDisplayMs (timers exStarted ! 0) 400 False = 0
   \<and> computeDisplayMs (timers (startSelectedTimer utcZone 400 400 (pauseTimer ''T1'' 400 exStarted)) ! 0) 400 False = - 600"
proof -
  have r: "reachable utcZone exStarted"
    unfolding exStarted_def by (rule reach_step) (rule reach_init)
  have e: "exStarted = initialApp\<lparr> timers := [(makeTimer ''T1'' ''Timer 1'')\<lparr> running := True, startEpochMs := Some 1000 \<rparr>, makeTimer ''T2'' ''Timer 2''] \<rparr>"
    by (simp add: exStarted_def startSelectedTimer_def initialApp_def String_small digitChar_def
        startSelectedTimer_updater_def resnapshot_def makeTimer_def Let_def)
  show ?thesis
    using r
    by (simp add: e startSelectedTimer_def initialApp_def pauseTimer_def updateTimer_def
        pauseTimer_updater_def startSelectedTimer_updater_def resnapshot_def makeTimer_def
        computeDisplayMs_def Let_def)
qed

section \<open>Deleting timers\<close>

lemma filter_distinct_length:
  "distinct (map f xs) \<Longrightarrow> length xs \<le> Suc (length (filter (\<lambda>t. f t \<noteq> i) xs))"
proof (induction xs)
  case Nil
  then show ?case by simp
next
  case (Cons a xs)
  show ?case
  proof (cases "f a = i")
    case True
    with Cons.prems have "\<forall>t \<in> set xs. f t \<noteq> i" by (auto simp add: image_iff)
    then have "filter (\<lambda>t. f t \<noteq> i) xs = xs" by simp
    with True show ?thesis by simp
  next
    case False
    with Cons show ?thesis by simp
  qed
qed

lemma filter_distinct_split:
  "distinct (map f (xs @ t # ys)) \<Longrightarrow> filter (\<lambda>u. f u \<noteq> f t) (xs @ t # ys) = xs @ ys"
proof -
  assume d: "distinct (map f (xs @ t # ys))"
  then have "\<forall>u \<in> set xs. f u \<noteq> f t" and "\<forall>u \<in> set ys. f u \<noteq> f t"
    by (auto simp add: image_iff)
  then have "filter (\<lambda>u. f u \<noteq> f t) xs = xs" and "filter (\<lambda>u. f u \<noteq> f t) ys = ys" by simp_all
  then show ?thesis by simp
qed

lemma deleteTimer_timers:
  "timers (deleteTimer i st) =
     (if length (timers st) \<le> 1 then timers st else filter (\<lambda>t. timerId t \<noteq> i) (timers st))"
proof (cases "length (filter (\<lambda>t. timerId t \<noteq> i) (timers st)) = length (timers st)")
  case True
  then have "filter (\<lambda>t. timerId t \<noteq> i) (timers st) = timers st"
    by (metis filter_True length_filter_less less_irrefl)
  with True show ?thesis by (simp add: deleteTimer_def Let_def)
next
  case False
  then show ?thesis by (simp add: deleteTimer_def Let_def split: list.splits)
qed

lemma deleteTimer_counter: "nextTimerNumber (deleteTimer i st) = nextTimerNumber st"
  by (simp add: deleteTimer_def Let_def split: list.splits)

lemma wellFormed_deleteTimer: "wellFormed st \<Longrightarrow> wellFormed (deleteTimer i st)"
proof -
  assume w: "wellFormed st"
  show ?thesis
  proof (cases "length (timers st) \<le> 1")
    case True
    with w show ?thesis by (simp add: deleteTimer_def)
  next
    case False
    have d: "distinct (map timerId (timers st))" using w by (simp add: wellFormed_def)
    have "length (timers st) \<le> Suc (length (filter (\<lambda>t. timerId t \<noteq> i) (timers st)))"
      using filter_distinct_length [OF d] .
    with False have ne: "filter (\<lambda>t. timerId t \<noteq> i) (timers st) \<noteq> []" by auto
    have "distinct (map timerId (filter (\<lambda>t. timerId t \<noteq> i) (timers st)))"
      using d by (simp add: distinct_map_filter)
    with ne w False show ?thesis
      by (auto simp add: wellFormed_def idsFresh_def deleteTimer_timers deleteTimer_counter)
  qed
qed

lemma wellFormed_addTimer: "wellFormed st \<Longrightarrow> wellFormed (addTimer st)"
proof -
  assume w: "wellFormed st"
  have new: "''T'' @ String (nextTimerNumber st) \<notin> timerId ` set (timers st)"
  proof
    assume "''T'' @ String (nextTimerNumber st) \<in> timerId ` set (timers st)"
    then obtain t where t: "t \<in> set (timers st)" and e: "timerId t = ''T'' @ String (nextTimerNumber st)"
      by auto
    from w t obtain k where k: "k < nextTimerNumber st" and "timerId t = ''T'' @ String k"
      by (auto simp add: wellFormed_def idsFresh_def)
    with e have "String k = String (nextTimerNumber st)" by simp
    then have "k = nextTimerNumber st" by (rule String_inj)
    with k show False by simp
  qed
  have fresh: "idsFresh (addTimer st)"
    using w by (auto simp add: wellFormed_def idsFresh_def addTimer_def Let_def makeTimer_def
        intro: less_SucI)
  show ?thesis
    using w new fresh by (simp add: wellFormed_def addTimer_def Let_def makeTimer_def)
qed

lemma wellFormed_map:
  assumes "wellFormed st" and "\<And>t. timerId (f t) = timerId t"
    and "nextTimerNumber st' = nextTimerNumber st" and "timers st' = map f (timers st)"
  shows "wellFormed st'"
proof -
  have ids: "map timerId (timers st') = map timerId (timers st)"
    using assms(2,4) by simp
  have fresh: "idsFresh st'"
    using assms by (auto simp add: wellFormed_def idsFresh_def)
  have "timers st' \<noteq> []" using assms(1,4) by (simp add: wellFormed_def)
  moreover have "distinct (map timerId (timers st'))"
    using assms(1) unfolding ids by (simp add: wellFormed_def)
  ultimately show ?thesis using fresh by (simp add: wellFormed_def)
qed

lemma wellFormed_same_timers:
  "wellFormed st \<Longrightarrow> timers st' = timers st \<Longrightarrow> nextTimerNumber st' = nextTimerNumber st \<Longrightarrow> wellFormed st'"
  by (simp add: wellFormed_def idsFresh_def)

lemma timerId_updaters:
  "timerId (pauseTimer_updater now t) = timerId t"
  "timerId (clearTimer_updater cb t) = timerId t"
  "timerId (setMode_updater md now t) = timerId t"
  "timerId (watchdog_updater now t) = timerId t"
  "timerId (startSelectedTimer_updater tz now clock an typed t) = timerId t"
  by (simp_all add: pauseTimer_updater_def clearTimer_updater_def setMode_updater_def
      watchdog_updater_def startSelectedTimer_updater_def resnapshot_def applyTyped_def Let_def
      split: TimerMode.splits option.splits)

lemma wellFormed_step: "wellFormed st \<Longrightarrow> wellFormed (step tz a st)"
proof (cases a)
  case AddTimer
  assume "wellFormed st" with AddTimer show ?thesis by (simp add: wellFormed_addTimer)
next
  case (DeleteTimer i)
  assume "wellFormed st" with DeleteTimer show ?thesis by (simp add: wellFormed_deleteTimer)
next
  case (PauseTimer i now)
  assume w: "wellFormed st"
  show ?thesis unfolding PauseTimer step.simps
    by (rule wellFormed_map [OF w, where f = "\<lambda>t. if timerId t = i then pauseTimer_updater now t else t"])
       (simp_all add: pauseTimer_def updateTimer_def timerId_updaters)
next
  case (ClearTimer i)
  assume w: "wellFormed st"
  show ?thesis unfolding ClearTimer step.simps
    by (rule wellFormed_map [OF w, where f = "\<lambda>t. if timerId t = i then clearTimer_updater (clearBehavior st) t else t"])
       (simp_all add: clearTimer_def updateTimer_def timerId_updaters)
next
  case (StartSelectedTimer now clock)
  assume w: "wellFormed st"
  show ?thesis unfolding StartSelectedTimer step.simps
    by (rule wellFormed_map [OF w, where f = "\<lambda>t. if timerId t \<noteq> selectedTimerId st then t
          else startSelectedTimer_updater tz now clock (allowNegativeTime st)
            (if length (keypadDigits st) > 0 then Some (parseKeypadDigitsToHms (keypadDigits st)) else None) t"])
       (simp_all add: startSelectedTimer_def Let_def timerId_updaters)
next
  case (SetMode md now)
  assume w: "wellFormed st"
  show ?thesis unfolding SetMode step.simps
    by (rule wellFormed_map [OF w, where f = "\<lambda>t. if timerId t = selectedTimerId st then setMode_updater md now t else t"])
       (simp_all add: setModeForSelectedTimer_def updateTimer_def timerId_updaters)
next
  case (Tick now)
  assume w: "wellFormed st"
  show ?thesis
  proof (cases "allowNegativeTime st")
    case True
    with w Tick show ?thesis by (simp add: watchdog_def)
  next
    case False
    show ?thesis unfolding Tick step.simps
      by (rule wellFormed_map [OF w, where f = "watchdog_updater now"])
         (simp_all add: watchdog_def False timerId_updaters)
  qed
qed (auto intro: wellFormed_same_timers)

lemma wellFormed_initialApp: "wellFormed initialApp"
proof -
  have "\<exists>k<3::nat. ''T1'' = ''T'' @ String k" by (rule exI [of _ 1]) (simp add: String_small digitChar_def)
  moreover have "\<exists>k<3::nat. ''T2'' = ''T'' @ String k" by (rule exI [of _ 2]) (simp add: String_small digitChar_def)
  ultimately show ?thesis
    by (simp add: wellFormed_def idsFresh_def initialApp_def makeTimer_def String_small digitChar_def)
qed

lemma reachable_wellFormed: "reachable tz st \<Longrightarrow> wellFormed st"
  by (induction rule: reachable.induct) (simp_all add: wellFormed_initialApp wellFormed_step)

text \<open>
  Claim C9. When exactly one timer is left, \<open>deleteTimer\<close> returns the state as it is
  (timer list and selection included); and in every state the component reaches, before
  and after a \<open>deleteTimer\<close>, there is at least one timer.
\<close>

theorem deleteTimer_last_noop:
  "(length (timers st) = 1 \<longrightarrow> deleteTimer i st = st)
   \<and> (reachable tz st \<longrightarrow> 1 \<le> length (timers st) \<and> 1 \<le> length (timers (deleteTimer i st)))"
proof -
  have "reachable tz st \<Longrightarrow> timers st \<noteq> [] \<and> timers (deleteTimer i st) \<noteq> []"
    using reachable_wellFormed [of tz st] wellFormed_deleteTimer [of st i]
    by (simp add: wellFormed_def)
  then show ?thesis by (auto simp add: deleteTimer_def Suc_le_eq)
qed

theorem deleteTimer_last_noop_witness:
  "length (timers exOneLeft) = 1 \<and> reachable utcZone exOneLeft
   \<and> deleteTimer ''T1'' exOneLeft = exOneLeft
   \<and> map timerId (timers (deleteTimer ''T1'' exOneLeft)) = [''T1'']"
proof -
  have r: "reachable utcZone exOneLeft"
    unfolding exOneLeft_def by (rule reach_step) (rule reach_init)
  have l: "map timerId (timers exOneLeft) = [''T1'']"
    by (simp add: exOneLeft_def deleteTimer_def initialApp_def makeTimer_def String_small
        digitChar_def Let_def)
  then have "length (map timerId (timers exOneLeft)) = 1" by simp
  then have "length (timers exOneLeft) = 1" by simp
  then show ?thesis
    using deleteTimer_last_noop [of exOneLeft "''T1''" utcZone] r l by simp
qed

text \<open>
  Claim C10. With more than one timer, deleting an id other than the selected one changes
  only the timer list: the selection stays, the timers with that id are filtered out and
  the others keep their order and contents; if no timer has the id the state is unchanged;
  and when ids are pairwise different (as in every reachable state) exactly the one timer
  with that id is removed.
\<close>

theorem deleteTimer_other:
  assumes "1 < length (timers st)" and "i \<noteq> selectedTimerId st"
  shows "deleteTimer i st = st\<lparr> timers := filter (\<lambda>t. timerId t \<noteq> i) (timers st) \<rparr>
         \<and> selectedTimerId (deleteTimer i st) = selectedTimerId st
         \<and> (i \<notin> timerId ` set (timers st) \<longrightarrow> deleteTimer i st = st)
         \<and> (\<forall>xs t ys. timers st = xs @ t # ys \<and> timerId t = i \<and> distinct (map timerId (timers st))
               \<longrightarrow> timers (deleteTimer i st) = xs @ ys)"
proof -
  let ?next = "filter (\<lambda>t. timerId t \<noteq> i) (timers st)"
  have eq: "deleteTimer i st = st\<lparr> timers := ?next \<rparr>"
  proof (cases "length ?next = length (timers st)")
    case True
    then have "?next = timers st"
      by (metis filter_True length_filter_less less_irrefl)
    with True assms show ?thesis by (simp add: deleteTimer_def Let_def)
  next
    case False
    with assms show ?thesis by (simp add: deleteTimer_def Let_def)
  qed
  have absent: "i \<notin> timerId ` set (timers st) \<Longrightarrow> ?next = timers st"
    by (rule filter_True) auto
  have split: "timers st = xs @ t # ys \<Longrightarrow> timerId t = i \<Longrightarrow> distinct (map timerId (timers st))
         \<Longrightarrow> ?next = xs @ ys" for xs t ys
    using filter_distinct_split [of timerId xs t ys] by simp
  show ?thesis
    unfolding eq using absent split by auto
qed

theorem deleteTimer_other_witness:
  "1 < length (timers initialApp) \<and> ''T2'' \<noteq> selectedTimerId initialApp
   \<and> timers initialApp = [makeTimer ''T1'' ''Timer 1''] @ makeTimer ''T2'' ''Timer 2'' # []
   \<and> timers (deleteTimer ''T2'' initialApp) = [makeTimer ''T1'' ''Timer 1'']
   \<and> selectedTimerId (deleteTimer ''T2'' initialApp) = ''T1''
   \<and> deleteTimer ''T9'' initialApp = initialApp"
  using deleteTimer_other [of initialApp "''T2''"] deleteTimer_other [of initialApp "''T9''"]
  by (simp add: initialApp_def makeTimer_def String_small digitChar_def)

section \<open>The keypad parser\<close>

lemma digitValue_range: "isDigit c \<Longrightarrow> 0 \<le> digitValue c \<and> digitValue c \<le> 9"
  by (auto simp add: isDigit_def digitValue_def Let_def)

lemma foldl_Number_shift:
  "foldl (\<lambda>acc c. acc * 10 + digitValue c) a xs = a * 10 ^ length xs + Number xs"
proof (induction xs arbitrary: a)
  case Nil
  show ?case by (simp add: Number_def)
next
  case (Cons c xs)
  have "foldl (\<lambda>acc c. acc * 10 + digitValue c) a (c # xs)
          = (a * 10 + digitValue c) * 10 ^ length xs + Number xs"
    using Cons.IH [of "a * 10 + digitValue c"] by simp
  moreover have "Number (c # xs) = digitValue c * 10 ^ length xs + Number xs"
    using Cons.IH [of "digitValue c"] by (simp add: Number_def)
  ultimately show ?case by (simp add: algebra_simps)
qed

lemma Number_append: "Number (xs @ ys) = Number xs * 10 ^ length ys + Number ys"
  using foldl_Number_shift [of "Number xs" ys] by (simp add: Number_def)

lemma Number_bounds:
  "\<forall>c \<in> set xs. isDigit c \<Longrightarrow> 0 \<le> Number xs \<and> Number xs < 10 ^ length xs"
proof (induction xs rule: rev_induct)
  case Nil
  show ?case by (simp add: Number_def)
next
  case (snoc c xs)
  then have ih: "0 \<le> Number xs" "Number xs < 10 ^ length xs" by simp_all
  have d: "0 \<le> digitValue c" "digitValue c \<le> 9" using snoc.prems digitValue_range by simp_all
  have e: "Number (xs @ [c]) = Number xs * 10 + digitValue c"
    by (simp add: Number_def)
  have "Number xs + 1 \<le> 10 ^ length xs" using ih(2) by simp
  then have "(Number xs + 1) * 10 \<le> 10 ^ length xs * 10" by (rule mult_right_mono) simp
  then show ?case using ih d e by (simp add: algebra_simps)
qed

lemma Number_zeros: "Number (replicate k (CHR ''0'')) = 0"
proof (induction k)
  case 0
  show ?case by (simp add: Number_def)
next
  case (Suc k)
  have "Number ([CHR ''0''] @ replicate k (CHR ''0'')) = Number [CHR ''0''] * 10 ^ k + 0"
    unfolding Number_append Suc by simp
  moreover have "Number [CHR ''0''] = 0" by (simp add: Number_def digitValue_def)
  ultimately show ?case by simp
qed

lemma Number_padStart: "Number (padStart n (CHR ''0'') xs) = Number xs"
  by (simp add: padStart_def Number_append Number_zeros)

lemma Number_sliceLast:
  assumes "\<forall>c \<in> set xs. isDigit c"
  shows "Number (sliceLast 6 xs) = Number xs mod 1000000"
proof (cases "length xs \<le> 6")
  case True
  have "Number xs < 10 ^ length xs" and nn: "0 \<le> Number xs"
    using Number_bounds [OF assms] by simp_all
  moreover have "(10::int) ^ length xs \<le> 10 ^ 6"
    using True by (intro power_increasing) simp_all
  ultimately have "Number xs < 1000000" by simp
  with nn True show ?thesis by (simp add: sliceLast_def)
next
  case False
  let ?d = "drop (length xs - 6) xs"
  have len: "length ?d = 6" using False by simp
  have "\<forall>c \<in> set ?d. isDigit c" using assms by (meson in_set_dropD)
  then have b: "0 \<le> Number ?d" "Number ?d < 10 ^ length ?d"
    using Number_bounds [of ?d] by simp_all
  have "Number xs = Number (take (length xs - 6) xs @ ?d)" by simp
  also have "\<dots> = Number (take (length xs - 6) xs) * 10 ^ length ?d + Number ?d"
    by (rule Number_append)
  finally have "Number xs = Number (take (length xs - 6) xs) * 1000000 + Number ?d"
    unfolding len by simp
  moreover have "Number ?d < 1000000" using b(2) unfolding len by simp
  ultimately show ?thesis using b(1) by (simp add: sliceLast_def)
qed

lemma div_mod_low:
  fixes q r d :: int
  assumes "0 \<le> r" and "r < d"
  shows "(q * d + r) div d = q" and "(q * d + r) mod d = r"
  using assms by simp_all

lemma six_digits_split:
  assumes "length p = 6" and "\<forall>c \<in> set p. isDigit c"
  shows "Number (slice 0 2 p) = Number p div 10000"
    and "Number (slice 2 4 p) = Number p div 100 mod 100"
    and "Number (slice 4 6 p) = Number p mod 100"
proof -
  let ?a = "take 2 p" and ?b = "take 2 (drop 2 p)" and ?c = "take 2 (drop 4 p)"
  have c: "?c = drop 4 p" using assms(1) by simp
  have "drop 2 p = ?b @ drop 2 (drop 2 p)" by (simp only: append_take_drop_id)
  then have bc: "drop 2 p = ?b @ ?c" using c by simp
  have "p = ?a @ drop 2 p" by (simp only: append_take_drop_id)
  then have p: "p = ?a @ ?b @ ?c" using bc by simp
  have la: "length ?a = 2" and lb: "length ?b = 2" and lc: "length ?c = 2"
    using assms(1) by simp_all
  have da: "\<forall>x \<in> set ?a. isDigit x" using assms(2) by (meson in_set_takeD)
  have db: "\<forall>x \<in> set ?b. isDigit x" using assms(2) by (meson in_set_takeD in_set_dropD)
  have dc: "\<forall>x \<in> set ?c. isDigit x" using assms(2) by (meson in_set_takeD in_set_dropD)
  have A: "0 \<le> Number ?a" "Number ?a < 100"
    using Number_bounds [OF da] unfolding la by simp_all
  have B: "0 \<le> Number ?b" "Number ?b < 100"
    using Number_bounds [OF db] unfolding lb by simp_all
  have C: "0 \<le> Number ?c" "Number ?c < 100"
    using Number_bounds [OF dc] unfolding lc by simp_all
  have "Number (?a @ ?b @ ?c) = Number ?a * 10 ^ length (?b @ ?c) + (Number ?b * 10 ^ length ?c + Number ?c)"
    by (simp only: Number_append)
  also have "length (?b @ ?c) = 4" using lb lc by simp
  finally have v: "Number p = Number ?a * 10000 + (Number ?b * 100 + Number ?c)"
    using p lc by simp
  have w: "Number p = (Number ?a * 100 + Number ?b) * 100 + Number ?c"
    unfolding v by simp
  have bc100: "0 \<le> Number ?b * 100 + Number ?c" "Number ?b * 100 + Number ?c < 10000"
    using B C by simp_all
  have "Number p div 10000 = Number ?a"
    unfolding v using bc100 by (rule div_mod_low(1))
  then show "Number (slice 0 2 p) = Number p div 10000"
    by (simp add: slice_def)
  have "Number p div 100 = Number ?a * 100 + Number ?b"
    unfolding w using C by (rule div_mod_low(1))
  moreover have "(Number ?a * 100 + Number ?b) mod 100 = Number ?b"
    using B by (rule div_mod_low(2))
  ultimately show "Number (slice 2 4 p) = Number p div 100 mod 100"
    by (simp add: slice_def)
  have "Number p mod 100 = Number ?c"
    unfolding w using C by (rule div_mod_low(2))
  then show "Number (slice 4 6 p) = Number p mod 100"
    by (simp add: slice_def)
qed

lemma clamp_min_max: "clamp n 0 mx = min mx (max 0 n)"
  by (simp add: clamp_def)

lemma isDigit_sliceLast:
  "\<forall>c \<in> set ds. isDigit c \<Longrightarrow> \<forall>c \<in> set (sliceLast n ds). isDigit c"
  unfolding sliceLast_def by (meson in_set_dropD)

lemma isDigit_padStart:
  assumes "\<forall>c \<in> set d. isDigit c"
  shows "\<forall>c \<in> set (padStart n (CHR ''0'') d). isDigit c"
proof -
  have "isDigit (CHR ''0'')" by (simp add: isDigit_def)
  with assms show ?thesis by (auto simp add: padStart_def)
qed

lemma length_padded: "length (padStart 6 c (sliceLast 6 ds)) = 6"
  by (simp add: padStart_def sliceLast_def)

lemma padded_digits:
  assumes ds: "\<forall>c \<in> set ds. isDigit c"
  shows "Number (slice 0 2 (padStart 6 (CHR ''0'') (sliceLast 6 ds))) = Number ds mod 1000000 div 10000"
    and "Number (slice 2 4 (padStart 6 (CHR ''0'') (sliceLast 6 ds))) = Number ds mod 1000000 div 100 mod 100"
    and "Number (slice 4 6 (padStart 6 (CHR ''0'') (sliceLast 6 ds))) = Number ds mod 1000000 mod 100"
proof -
  let ?p = "padStart 6 (CHR ''0'') (sliceLast 6 ds)"
  have dp: "\<forall>c \<in> set ?p. isDigit c"
    using ds by (intro isDigit_padStart isDigit_sliceLast)
  have np: "Number ?p = Number ds mod 1000000"
    using Number_sliceLast [OF ds] by (simp only: Number_padStart)
  show "Number (slice 0 2 ?p) = Number ds mod 1000000 div 10000"
    using six_digits_split(1) [OF length_padded dp] by (simp only: np)
  show "Number (slice 2 4 ?p) = Number ds mod 1000000 div 100 mod 100"
    using six_digits_split(2) [OF length_padded dp] by (simp only: np)
  show "Number (slice 4 6 ?p) = Number ds mod 1000000 mod 100"
    using six_digits_split(3) [OF length_padded dp] by (simp only: np)
qed

lemma clamp_hours:
  fixes n :: int
  shows "clamp (n mod 1000000 div 10000) 0 99 = n mod 1000000 div 10000"
proof -
  have "0 \<le> n mod 1000000" and "n mod 1000000 < 100 * 10000" by simp_all
  then have "0 \<le> n mod 1000000 div 10000" and "n mod 1000000 div 10000 < 100"
    by (simp_all add: div_less_iff_less_mult pos_imp_zdiv_nonneg_iff del: mod_mod_trivial)
  then show ?thesis by (simp add: clamp_min_max)
qed

lemma clamp_sixty:
  fixes n :: int
  shows "clamp (n mod 100) 0 59 = min 59 (n mod 100)"
  by (simp add: clamp_min_max)

lemma parseKeypadDigitsToHms_last_six:
  "parseKeypadDigitsToHms digits =
     \<lparr> h = Number (filter isDigit digits) mod 1000000 div 10000,
       m = min 59 (Number (filter isDigit digits) mod 1000000 div 100 mod 100),
       s = min 59 (Number (filter isDigit digits) mod 1000000 mod 100) \<rparr>"
proof -
  have ds: "\<forall>c \<in> set (filter isDigit digits). isDigit c" by simp
  show ?thesis
    unfolding parseKeypadDigitsToHms_def Let_def
    by (simp only: padded_digits [OF ds] clamp_hours clamp_sixty)
qed

lemma Number_915: "Number (filter isDigit ''915'') = 915"
  by (simp add: isDigit_def Number_def digitValue_def)

lemma Number_999999: "Number (filter isDigit ''999999'') = 999999"
  by (simp add: isDigit_def Number_def digitValue_def)

text \<open>
  Claim C8. The parser reads the decimal value \<open>n6\<close> of the last six digits of the
  buffer (shorter buffers count as left-padded with zeros): hours are \<open>n6 div 10000\<close>,
  minutes the next two digits and seconds the last two, minutes and seconds saturated at
  59 (no carry, no wrap-around); hours lie in 0..99, minutes and seconds in 0..59. The
  buffer 915 gives 0:09:15 and the buffer 999999 gives 99:59:59.
\<close>

theorem parseKeypadDigitsToHms_value:
  "parseKeypadDigitsToHms digits =
     (let n6 = Number (filter isDigit digits) mod 1000000 in
        \<lparr> h = n6 div 10000, m = min 59 (n6 div 100 mod 100), s = min 59 (n6 mod 100) \<rparr>)
   \<and> 0 \<le> h (parseKeypadDigitsToHms digits) \<and> h (parseKeypadDigitsToHms digits) \<le> 99
   \<and> 0 \<le> m (parseKeypadDigitsToHms digits) \<and> m (parseKeypadDigitsToHms digits) \<le> 59
   \<and> 0 \<le> s (parseKeypadDigitsToHms digits) \<and> s (parseKeypadDigitsToHms digits) \<le> 59
   \<and> parseKeypadDigitsToHms ''915'' = \<lparr> h = 0, m = 9, s = 15 \<rparr>
   \<and> parseKeypadDigitsToHms ''999999'' = \<lparr> h = 99, m = 59, s = 59 \<rparr>
   \<and> parseKeypadDigitsToHms [] = \<lparr> h = 0, m = 0, s = 0 \<rparr>"
proof -
  have ranges: "0 \<le> h (parseKeypadDigitsToHms digits) \<and> h (parseKeypadDigitsToHms digits) \<le> 99
     \<and> 0 \<le> m (parseKeypadDigitsToHms digits) \<and> m (parseKeypadDigitsToHms digits) \<le> 59
     \<and> 0 \<le> s (parseKeypadDigitsToHms digits) \<and> s (parseKeypadDigitsToHms digits) \<le> 59"
    by (simp add: parseKeypadDigitsToHms_def Let_def clamp_def)
  have e1: "parseKeypadDigitsToHms ''915'' = \<lparr> h = 0, m = 9, s = 15 \<rparr>"
    unfolding parseKeypadDigitsToHms_last_six Number_915 by simp
  have e2: "parseKeypadDigitsToHms ''999999'' = \<lparr> h = 99, m = 59, s = 59 \<rparr>"
    unfolding parseKeypadDigitsToHms_last_six Number_999999 by simp
  have e3: "parseKeypadDigitsToHms [] = \<lparr> h = 0, m = 0, s = 0 \<rparr>"
    unfolding parseKeypadDigitsToHms_last_six by (simp add: Number_def)
  show ?thesis
    using ranges e1 e2 e3 parseKeypadDigitsToHms_last_six [of digits] by (simp only: Let_def)
qed

section \<open>Starting a CountTo timer\<close>

lemma msPerDay_pos: "0 < msPerDay"
  by (simp add: msPerDay_def)









lemma fixedZone_resolves: "resolves (fixedZone off) l"
  by (simp add: resolves_def fixedZone_def LocalTime_def UTC_def)
















end
